theory Spec2Isabelle
  imports Main "HOL-Library.Multiset"
begin

section \<open>Python values, dictionaries and exceptions\<close>

text \<open>
  The source is Python 2 (it imports \<^verbatim>\<open>urllib2\<close>): a \<^verbatim>\<open>str\<close> is a byte string, modelled
  as \<^typ>\<open>string\<close>, and there are two integer types, \<^verbatim>\<open>int\<close> and \<^verbatim>\<open>long\<close>.  The values
  that a parameter dictionary holds are integers, byte strings and lists of such values.
\<close>

datatype pvalue = PInt int | PLong int | PStr string | PList "pvalue list"

text \<open>
  A dictionary with string keys is an association list, in the order in which
  \<^verbatim>\<open>items()\<close> yields the entries.  Python 2 fixes that order by hashing, not by insertion,
  so nothing below depends on a particular order: the statements about \<^verbatim>\<open>make_url\<close>
  hold for every order of the list.
\<close>

type_synonym dict = "(string \<times> pvalue) list"

text \<open>\<^verbatim>\<open>d.update({k: v})\<close>: an existing key keeps its place and takes the new value, a new
  key is added.\<close>

fun dict_update :: "string \<Rightarrow> pvalue \<Rightarrow> dict \<Rightarrow> dict" where
  "dict_update k v [] = [(k, v)]"
| "dict_update k v (p # ps) = (if fst p = k then (k, v) # ps else p # dict_update k v ps)"

text \<open>\<^verbatim>\<open>d.get(k)\<close>.\<close>

definition dict_get :: "dict \<Rightarrow> string \<Rightarrow> pvalue option" where
  "dict_get d k = map_of d k"

text \<open>The exceptions that the modelled code raises or catches.\<close>

datatype py_exn =
    HTTPError int
  | URLError
  | SocketTimeout
  | BadStatusLine
  | TypeError
  | IOError
  | KeyError

subsection \<open>\<^verbatim>\<open>str()\<close>, \<^verbatim>\<open>repr()\<close> and iteration\<close>

definition digit_char :: "nat \<Rightarrow> char" where
  "digit_char n = char_of (48 + n)"

function str_nat :: "nat \<Rightarrow> string" where
  "str_nat n = (if n < 10 then [digit_char n] else str_nat (n div 10) @ [digit_char (n mod 10)])"
  by pat_completeness auto
termination
  by (relation "measure (\<lambda>n. n)") auto

declare str_nat.simps [simp del]

definition str_int :: "int \<Rightarrow> string" where
  "str_int i = (if i < 0 then CHR ''-'' # str_nat (nat (- i)) else str_nat (nat i))"

text \<open>
  The \<^verbatim>\<open>repr\<close> of a byte string: in single quotes, or in double quotes when the string has
  a single quote and no double quote; the quote and the backslash are escaped, so are tab,
  line feed and carriage return, and every other byte outside the printable ASCII range is
  written \<^verbatim>\<open>\xhh\<close> in lower-case hexadecimal.
\<close>

definition hex_lower :: "nat \<Rightarrow> char" where
  "hex_lower n = (if n < 10 then char_of (48 + n) else char_of (87 + n))"

definition repr_quote :: "string \<Rightarrow> char" where
  "repr_quote s = (if CHR 0x27 \<in> set s \<and> CHR 0x22 \<notin> set s then CHR 0x22 else CHR 0x27)"

definition repr_char :: "char \<Rightarrow> char \<Rightarrow> string" where
  "repr_char q c =
     (if c = q \<or> c = CHR 0x5C then [CHR 0x5C, c]
      else if c = CHR 0x09 then [CHR 0x5C, CHR ''t'']
      else if c = CHR 0x0A then [CHR 0x5C, CHR ''n'']
      else if c = CHR 0x0D then [CHR 0x5C, CHR ''r'']
      else if (of_char c :: nat) < 32 \<or> (of_char c :: nat) \<ge> 127 then
        [CHR 0x5C, CHR ''x'', hex_lower ((of_char c :: nat) div 16),
         hex_lower ((of_char c :: nat) mod 16)]
      else [c])"

definition repr_str :: "string \<Rightarrow> string" where
  "repr_str s = repr_quote s # concat (map (repr_char (repr_quote s)) s) @ [repr_quote s]"

text \<open>\<^verbatim>\<open>sep.join(xs)\<close>.\<close>

fun join :: "string \<Rightarrow> string list \<Rightarrow> string" where
  "join sep [] = []"
| "join sep [x] = x"
| "join sep (x # y # ys) = x @ sep @ join sep (y # ys)"

fun py_repr :: "pvalue \<Rightarrow> string" where
  "py_repr (PInt i) = str_int i"
| "py_repr (PLong i) = str_int i @ ''L''"
| "py_repr (PStr s) = repr_str s"
| "py_repr (PList xs) = ''['' @ join '', '' (map py_repr xs) @ '']''"

text \<open>\<^verbatim>\<open>str(value)\<close>: a byte string is itself, a long has no suffix, a list is its
  \<^verbatim>\<open>repr\<close>.\<close>

fun py_str :: "pvalue \<Rightarrow> string" where
  "py_str (PInt i) = str_int i"
| "py_str (PLong i) = str_int i"
| "py_str (PStr s) = s"
| "py_str (PList xs) = py_repr (PList xs)"

text \<open>\<^verbatim>\<open>for x in value\<close>: a list yields its elements, a string its characters as strings of
  length one, and a number raises \<^verbatim>\<open>TypeError\<close>.\<close>

fun py_iter :: "pvalue \<Rightarrow> py_exn + pvalue list" where
  "py_iter (PInt i) = Inl TypeError"
| "py_iter (PLong i) = Inl TypeError"
| "py_iter (PStr s) = Inr (map (\<lambda>c. PStr [c]) s)"
| "py_iter (PList xs) = Inr xs"

section \<open>\<^verbatim>\<open>urllib.quote_plus\<close>\<close>

text \<open>
  Python 2.7's \<^verbatim>\<open>urllib\<close>: \<^verbatim>\<open>quote(s, safe)\<close> keeps the characters of \<^verbatim>\<open>always_safe\<close> and of
  \<^verbatim>\<open>safe\<close> and writes every other byte as \<^verbatim>\<open>%XX\<close> with upper-case hexadecimal digits;
  \<^verbatim>\<open>quote_plus\<close> quotes with the blank as a safe character when the string has one, and
  then replaces every blank by \<^verbatim>\<open>+\<close>.
\<close>

definition always_safe :: string where
  "always_safe = ''ABCDEFGHIJKLMNOPQRSTUVWXYZabcdefghijklmnopqrstuvwxyz0123456789_.-''"

definition hex_digit :: "nat \<Rightarrow> char" where
  "hex_digit n = (if n < 10 then char_of (48 + n) else char_of (55 + n))"

definition percent_encode :: "char \<Rightarrow> string" where
  "percent_encode c =
     [CHR ''%'', hex_digit ((of_char c :: nat) div 16), hex_digit ((of_char c :: nat) mod 16)]"

definition quoter :: "string \<Rightarrow> char \<Rightarrow> string" where
  "quoter safe c = (if c \<in> set (always_safe @ safe) then [c] else percent_encode c)"

definition quote :: "string \<Rightarrow> string \<Rightarrow> string" where
  "quote s safe = concat (map (quoter safe) s)"

definition quote_plus :: "string \<Rightarrow> string" where
  "quote_plus s =
     (if CHR '' '' \<in> set s
      then map (\<lambda>c. if c = CHR '' '' then CHR ''+'' else c) (quote s '' '')
      else quote s '''')"

section \<open>The client\<close>

record client =
  key :: string
  debug :: int
  base :: string

definition API_KEY :: string where
  "API_KEY = ''API_KEY_HERE''"

text \<open>\<^verbatim>\<open>_BrowshotClient(key)\<close>, with the defaults of \<^verbatim>\<open>__init__\<close>.\<close>

definition BrowshotClient :: "string \<Rightarrow> client" where
  "BrowshotClient k = \<lparr>key = k, debug = 0, base = ''https://api.browshot.com/api/v1/''\<rparr>"

subsection \<open>\<^verbatim>\<open>make_url\<close>\<close>

text \<open>What one of the two inner loops appends: \<^verbatim>\<open>&name=\<close> and the quoted element, for
  every element.\<close>

definition repeat_param :: "string \<Rightarrow> pvalue list \<Rightarrow> string" where
  "repeat_param name xs =
     concat (map (\<lambda>x. CHR ''&'' # name @ CHR ''='' # quote_plus (py_str x)) xs)"

text \<open>The loop over \<^verbatim>\<open>parameters.items()\<close>, with the URL built so far.\<close>

fun make_url_loop :: "string \<Rightarrow> dict \<Rightarrow> py_exn + string" where
  "make_url_loop url [] = Inr url"
| "make_url_loop url ((k, v) # ps) =
     (if k = ''urls'' then
        (case py_iter v of
           Inl e \<Rightarrow> Inl e
         | Inr xs \<Rightarrow> make_url_loop (url @ repeat_param ''url'' xs) ps)
      else if k = ''instances'' then
        (case py_iter v of
           Inl e \<Rightarrow> Inl e
         | Inr xs \<Rightarrow> make_url_loop (url @ repeat_param ''instance_id'' xs) ps)
      else
        make_url_loop (url @ CHR ''&'' # quote_plus k @ CHR ''='' # quote_plus (py_str v)) ps)"

definition make_url :: "client \<Rightarrow> string \<Rightarrow> dict \<Rightarrow> py_exn + string" where
  "make_url c action parameters =
     make_url_loop (base c @ action @ ''?key='' @ quote_plus (key c)) parameters"

subsection \<open>The network call\<close>

text \<open>
  What the remote service does with one request: it answers with a final HTTP status and
  a body, or the transport fails.
\<close>

datatype transport_failure = ConnectionFailed | TimedOut | MalformedResponse

datatype http_reply = Reply int string | Failure transport_failure

text \<open>
  \<^verbatim>\<open>urlopen(uri)\<close> followed by \<^verbatim>\<open>response.read()\<close>, given the reply of the service to the
  request for \<^verbatim>\<open>uri\<close>, as \<^verbatim>\<open>urllib2\<close> behaves: a reply with a status in [200,300) is returned
  and its body read; every other final status is raised as \<^verbatim>\<open>HTTPError\<close> carrying that
  status; a transport failure is raised as an exception that is not an \<^verbatim>\<open>HTTPError\<close>.
\<close>

fun urlopen :: "http_reply \<Rightarrow> py_exn + string" where
  "urlopen (Reply status body) =
     (if 200 \<le> status \<and> status < 300 then Inr body else Inl (HTTPError status))"
| "urlopen (Failure ConnectionFailed) = Inl URLError"
| "urlopen (Failure TimedOut) = Inl SocketTimeout"
| "urlopen (Failure MalformedResponse) = Inl BadStatusLine"

subsection \<open>\<^verbatim>\<open>simple\<close> and \<^verbatim>\<open>simple_file\<close>\<close>

record result =
  code :: int

record png_result = result +
  png :: string

record file_result = result +
  "file" :: string

text \<open>The \<^verbatim>\<open>try\<close> statement of \<^verbatim>\<open>simple\<close>.\<close>

definition simple_try :: "http_reply \<Rightarrow> png_result" where
  "simple_try reply =
     (case urlopen reply of
        Inr data \<Rightarrow>
          if length data < 500 then \<lparr>code = 500, png = ''''\<rparr>
          else \<lparr>code = 200, png = data\<rparr>
      | Inl (HTTPError status) \<Rightarrow> \<lparr>code = status, png = ''''\<rparr>
      | Inl e \<Rightarrow> \<lparr>code = 400, png = ''''\<rparr>)"

text \<open>
  \<^verbatim>\<open>simple\<close> updates the caller's dictionary in place, so the model returns the dictionary
  next to the result.  \<^verbatim>\<open>make_url\<close> is called outside the \<^verbatim>\<open>try\<close>: what it raises is raised
  by \<^verbatim>\<open>simple\<close>.
\<close>

definition simple ::
  "client \<Rightarrow> string \<Rightarrow> dict \<Rightarrow> http_reply \<Rightarrow> (py_exn + png_result) \<times> dict" where
  "simple c url parameters reply =
     (let parameters' = dict_update ''url'' (PStr url) parameters in
      (case make_url c ''simple'' parameters' of
         Inl e \<Rightarrow> Inl e
       | Inr uri \<Rightarrow> Inr (simple_try reply),
       parameters'))"

text \<open>
  The part of the world that the thread meets and changes: the files; what the file system
  answers, which the thread does not change; and for the statements below the list of the
  writes made, the log records emitted and the number of attempts, each in the order of
  time.  The file system answers in two ways.  \<open>open_error\<close> is the exception that
  \<^verbatim>\<open>open(path, mode='wb')\<close> raises for a path, if any: \<^verbatim>\<open>IOError\<close> for a directory, a missing
  parent directory or a path that the process may not write, \<^verbatim>\<open>TypeError\<close> for a path with a
  NUL byte.  \<open>room\<close> is the number of bytes that the file at a path can take before a write
  fails (the device is full, a quota is reached), if there is such a bound.
\<close>

datatype log_event =
    Fatal_error string string file_result
  | Failed_screenshot string file_result
  | Took_screenshot string file_result

record world =
  files :: "string \<rightharpoonup> string"
  open_error :: "string \<Rightarrow> py_exn option"
  room :: "string \<Rightarrow> nat option"
  written :: "(string \<times> string) list"
  logged :: "log_event list"
  attempts :: nat

text \<open>What \<^verbatim>\<open>open(path, mode='wb')\<close> raises, if anything.  The empty string names no file in
  any world.\<close>

definition open_failure :: "world \<Rightarrow> string \<Rightarrow> py_exn option" where
  "open_failure w path = (if path = [] then Some IOError else open_error w path)"

text \<open>Whether the file at a path can take the data, and the part of the data that it
  takes.\<close>

definition fits :: "world \<Rightarrow> string \<Rightarrow> string \<Rightarrow> bool" where
  "fits w path data = (case room w path of None \<Rightarrow> True | Some k \<Rightarrow> length data \<le> k)"

definition stored_part :: "world \<Rightarrow> string \<Rightarrow> string \<Rightarrow> string" where
  "stored_part w path data = (case room w path of None \<Rightarrow> data | Some k \<Rightarrow> take k data)"

text \<open>
  What the three statements \<^verbatim>\<open>open\<close>, \<^verbatim>\<open>write\<close>, \<^verbatim>\<open>close\<close> of \<^verbatim>\<open>simple_file\<close> raise for a path and
  the data, if anything; the output file can be stored when they raise nothing.
\<close>

definition store_failure :: "world \<Rightarrow> string \<Rightarrow> string \<Rightarrow> py_exn option" where
  "store_failure w path data =
     (case open_failure w path of
        Some e \<Rightarrow> Some e
      | None \<Rightarrow> if fits w path data then None else Some IOError)"

definition can_store :: "world \<Rightarrow> string \<Rightarrow> string \<Rightarrow> bool" where
  "can_store w path data = (store_failure w path data = None)"

text \<open>
  \<^verbatim>\<open>open(file, mode='wb')\<close> creates the file or truncates it, or raises; nothing is changed
  when it raises.
\<close>

definition open_wb :: "string \<Rightarrow> world \<Rightarrow> py_exn + world" where
  "open_wb path w =
     (case open_failure w path of
        Some e \<Rightarrow> Inl e
      | None \<Rightarrow> Inr (w\<lparr>files := (files w)(path \<mapsto> [])\<rparr>))"

text \<open>
  \<^verbatim>\<open>image.write(data)\<close> followed by \<^verbatim>\<open>image.close()\<close> on the open file: the data are appended,
  or as much of them as the file can take, and then \<^verbatim>\<open>IOError\<close> is raised.
\<close>

definition file_write :: "string \<Rightarrow> string \<Rightarrow> world \<Rightarrow> py_exn option \<times> world" where
  "file_write path data w =
     (if fits w path data then None else Some IOError,
      w\<lparr>files := (files w)(path \<mapsto>
            (case files w path of
               None \<Rightarrow> stored_part w path data
             | Some old \<Rightarrow> old @ stored_part w path data)),
        written := written w @ [(path, stored_part w path data)]\<rparr>)"

definition simple_file ::
  "client \<Rightarrow> string \<Rightarrow> string \<Rightarrow> dict \<Rightarrow> http_reply \<Rightarrow> world
     \<Rightarrow> (py_exn + file_result) \<times> dict \<times> world" where
  "simple_file c url file_path parameters reply w =
     (case simple c url parameters reply of
        (Inl e, parameters') \<Rightarrow> (Inl e, parameters', w)
      | (Inr data, parameters') \<Rightarrow>
          if length (png data) > 0 then
            (case open_wb file_path w of
               Inl e \<Rightarrow> (Inl e, parameters', w)
             | Inr opened \<Rightarrow>
                 (case file_write file_path (png data) opened of
                    (Some e, closed) \<Rightarrow> (Inl e, parameters', closed)
                  | (None, closed) \<Rightarrow>
                      (Inr \<lparr>code = code data, file = file_path\<rparr>, parameters', closed)))
          else (Inr \<lparr>code = code data, file = ''''\<rparr>, parameters', w))"

section \<open>The screenshot thread\<close>

definition SHOTS_BROWSERS :: "(string \<times> int) list" where
  "SHOTS_BROWSERS =
     [(''ie10'', 360), (''ff40'', 58), (''chrome'', 282), (''iphone'', 185), (''android'', 182)]"

record screenshot_thread =
  url :: string
  shotpath :: string
  browser :: string
  cookie :: "string option"
  browserid :: int

text \<open>\<^verbatim>\<open>ScreenshotThread.__init__\<close>: an unknown browser raises \<^verbatim>\<open>KeyError\<close>.\<close>

definition ScreenshotThread ::
  "string \<Rightarrow> string \<Rightarrow> string \<Rightarrow> string option \<Rightarrow> py_exn + screenshot_thread" where
  "ScreenshotThread u p b ck =
     (case map_of SHOTS_BROWSERS b of
        None \<Rightarrow> Inl KeyError
      | Some i \<Rightarrow> Inr \<lparr>url = u, shotpath = p, browser = b, cookie = ck, browserid = i\<rparr>)"

text \<open>The dictionary that \<^verbatim>\<open>run\<close> builds for every call of \<^verbatim>\<open>simple_file\<close>.\<close>

definition run_parameters :: "screenshot_thread \<Rightarrow> dict" where
  "run_parameters t =
     [(''cache'', PInt 0), (''instance_id'', PInt (browserid t)),
      (''size'', PStr ''page''), (''delay'', PInt 1)]"

text \<open>How the \<^verbatim>\<open>while\<close> loop of \<^verbatim>\<open>run\<close> is left.\<close>

datatype loop_exit = Condition_false file_result | Returned | Raised py_exn

text \<open>
  The loop of \<^verbatim>\<open>run\<close>, with the value of \<^verbatim>\<open>res\<close> and the replies of the service to the
  requests still to come, one for each call of \<^verbatim>\<open>simple_file\<close>.  The loop has no bound: when
  the replies are used up and the loop has not been left, the result is \<open>None\<close>.
  Every call of \<^verbatim>\<open>simple_file\<close> is counted in \<open>attempts\<close>.
\<close>

fun run_loop ::
  "screenshot_thread \<Rightarrow> file_result \<Rightarrow> http_reply list \<Rightarrow> world
     \<Rightarrow> (loop_exit \<times> world) option" where
  "run_loop t res [] w =
     (if file res \<noteq> [] then Some (Condition_false res, w) else None)"
| "run_loop t res (reply # replies) w =
     (if file res \<noteq> [] then Some (Condition_false res, w)
      else
        (case simple_file (BrowshotClient API_KEY) (url t) (shotpath t) (run_parameters t)
                reply (w\<lparr>attempts := attempts w + 1\<rparr>) of
           (Inl e, parameters', w') \<Rightarrow> Some (Raised e, w')
         | (Inr res', parameters', w') \<Rightarrow>
             if 500 > code res' \<and> code res' \<ge> 400 then
               Some (Returned, w'\<lparr>logged := logged w' @ [Fatal_error (url t) (browser t) res']\<rparr>)
             else if file res' = [] then
               run_loop t res' replies
                 (w'\<lparr>logged := logged w' @ [Failed_screenshot (browser t) res']\<rparr>)
             else run_loop t res' replies w'))"

text \<open>How a call of \<^verbatim>\<open>run\<close> ends: it returns, or an exception leaves it.\<close>

datatype completion = Normal | Exception py_exn

text \<open>\<^verbatim>\<open>run\<close>.  The elapsed time in the last log record is left out.\<close>

definition run ::
  "screenshot_thread \<Rightarrow> http_reply list \<Rightarrow> world \<Rightarrow> (completion \<times> world) option" where
  "run t replies w =
     (case run_loop t \<lparr>code = 0, file = ''''\<rparr> replies w of
        None \<Rightarrow> None
      | Some (Condition_false res, w') \<Rightarrow>
          Some (Normal, w'\<lparr>logged := logged w' @ [Took_screenshot (browser t) res]\<rparr>)
      | Some (Returned, w') \<Rightarrow> Some (Normal, w')
      | Some (Raised e, w') \<Rightarrow> Some (Exception e, w'))"

text \<open>
  What \<^verbatim>\<open>run\<close> does with the result of an attempt, in the order of its tests: a code in
  [400,500) ends the thread, an empty \<^verbatim>\<open>png\<close> (so an empty \<^verbatim>\<open>file\<close>) is tried again, and
  anything else has been written to the file.
\<close>

datatype capture_outcome = Success string | TransientFailure int | PermanentFailure int

definition outcome_of :: "png_result \<Rightarrow> capture_outcome" where
  "outcome_of r =
     (if 500 > code r \<and> code r \<ge> 400 then PermanentFailure (code r)
      else if png r = [] then TransientFailure (code r)
      else Success (png r))"

text \<open>The outcome of the attempt that meets a given reply, and the outcomes after which
  \<^verbatim>\<open>run\<close> tries again.\<close>

definition attempt_outcome :: "http_reply \<Rightarrow> capture_outcome" where
  "attempt_outcome reply = outcome_of (simple_try reply)"

fun is_transient :: "capture_outcome \<Rightarrow> bool" where
  "is_transient (TransientFailure status) = True"
| "is_transient (Success data) = False"
| "is_transient (PermanentFailure status) = False"

text \<open>The log record of an attempt that is tried again.\<close>

definition retry_record :: "screenshot_thread \<Rightarrow> http_reply \<Rightarrow> log_event" where
  "retry_record t reply =
     Failed_screenshot (browser t) \<lparr>code = code (simple_try reply), file = ''''\<rparr>"

section \<open>Reading a URL back\<close>

text \<open>
  The decoding of a query string (\<^verbatim>\<open>application/x-www-form-urlencoded\<close>), to state what a
  built URL says: the query is what follows the first \<^verbatim>\<open>?\<close>; its fields are separated by
  \<^verbatim>\<open>&\<close>, a name from its value by the first \<^verbatim>\<open>=\<close>; \<^verbatim>\<open>+\<close> is a blank and \<^verbatim>\<open>%XX\<close> a byte.
\<close>

fun split_on :: "char \<Rightarrow> string \<Rightarrow> string list" where
  "split_on d [] = [[]]"
| "split_on d (c # cs) =
     (if c = d then [] # split_on d cs
      else (c # hd (split_on d cs)) # tl (split_on d cs))"

definition hex_value :: "char \<Rightarrow> nat option" where
  "hex_value c =
     (let k = of_char c :: nat in
      if 48 \<le> k \<and> k \<le> 57 then Some (k - 48)
      else if 65 \<le> k \<and> k \<le> 70 then Some (k - 55)
      else if 97 \<le> k \<and> k \<le> 102 then Some (k - 87)
      else None)"

fun unquote_plus :: "string \<Rightarrow> string" where
  "unquote_plus [] = []"
| "unquote_plus [c] = (if c = CHR ''+'' then '' '' else [c])"
| "unquote_plus [c, a] =
     (if c = CHR ''+'' then CHR '' '' # unquote_plus [a] else c # unquote_plus [a])"
| "unquote_plus (c # a # b # cs) =
     (if c = CHR ''+'' then CHR '' '' # unquote_plus (a # b # cs)
      else if c = CHR ''%'' then
        (case (hex_value a, hex_value b) of
           (Some x, Some y) \<Rightarrow> char_of (16 * x + y) # unquote_plus cs
         | _ \<Rightarrow> c # unquote_plus (a # b # cs))
      else c # unquote_plus (a # b # cs))"

definition parse_pair :: "string \<Rightarrow> string \<times> string" where
  "parse_pair p =
     (unquote_plus (takeWhile (\<lambda>c. c \<noteq> CHR ''='') p),
      unquote_plus (drop 1 (dropWhile (\<lambda>c. c \<noteq> CHR ''='') p)))"

definition parse_qsl :: "string \<Rightarrow> (string \<times> string) list" where
  "parse_qsl q = map parse_pair (filter (\<lambda>p. p \<noteq> []) (split_on CHR ''&'' q))"

definition url_query :: "string \<Rightarrow> string" where
  "url_query u = drop 1 (dropWhile (\<lambda>c. c \<noteq> CHR ''?'') u)"

definition url_parameters :: "string \<Rightarrow> (string \<times> string) list" where
  "url_parameters u = parse_qsl (url_query u)"

text \<open>
  The fields that a dictionary entry stands for: under the keys \<^verbatim>\<open>urls\<close> and \<^verbatim>\<open>instances\<close>
  one field \<^verbatim>\<open>url\<close> or \<^verbatim>\<open>instance_id\<close> for every element of the value, and under any other
  key one field of that name.
\<close>

definition elements :: "pvalue \<Rightarrow> pvalue list" where
  "elements v = (case py_iter v of Inl e \<Rightarrow> [] | Inr xs \<Rightarrow> xs)"

definition fields_of :: "string \<times> pvalue \<Rightarrow> (string \<times> string) list" where
  "fields_of p =
     (if fst p = ''urls'' then map (\<lambda>x. (''url'', py_str x)) (elements (snd p))
      else if fst p = ''instances'' then map (\<lambda>x. (''instance_id'', py_str x)) (elements (snd p))
      else [(fst p, py_str (snd p))])"

text \<open>The text that \<^verbatim>\<open>make_url\<close> writes for a list of fields.\<close>

definition field_text :: "string \<times> string \<Rightarrow> string" where
  "field_text f = quote_plus (fst f) @ CHR ''='' # quote_plus (snd f)"

definition query_text :: "(string \<times> string) list \<Rightarrow> string" where
  "query_text fs = concat (map (\<lambda>f. CHR ''&'' # field_text f) fs)"

text \<open>What \<^verbatim>\<open>quote_plus\<close> writes for one character.\<close>

definition quote_char :: "char \<Rightarrow> string" where
  "quote_char c =
     (if c \<in> set always_safe then [c]
      else if c = CHR '' '' then ''+''
      else percent_encode c)"

subsection \<open>Example values\<close>

text \<open>
  The request of the example scenarios; the same request with the directory \<^verbatim>\<open>/tmp\<close> as its
  output path, and with an output path on a disk that is nearly full; a world with no files
  in which \<^verbatim>\<open>/tmp\<close> is a directory, the directory \<^verbatim>\<open>/nonexistent_dir_xyz\<close> does not exist and
  the file \<^verbatim>\<open>/mnt/full/out.png\<close> can take 100 bytes; and a body of 500 bytes.
\<close>

definition example_thread :: screenshot_thread where
  "example_thread =
     \<lparr>url = ''http://example.com'', shotpath = ''/tmp/out.png'', browser = ''chrome'',
      cookie = None, browserid = 282\<rparr>"

definition directory_thread :: screenshot_thread where
  "directory_thread =
     \<lparr>url = ''http://example.com'', shotpath = ''/tmp'', browser = ''chrome'',
      cookie = None, browserid = 282\<rparr>"

definition full_disk_thread :: screenshot_thread where
  "full_disk_thread =
     \<lparr>url = ''http://example.com'', shotpath = ''/mnt/full/out.png'', browser = ''chrome'',
      cookie = None, browserid = 282\<rparr>"

definition example_open_error :: "string \<Rightarrow> py_exn option" where
  "example_open_error path =
     (if path = ''/tmp'' \<or> path = ''/nonexistent_dir_xyz/out.png'' then Some IOError else None)"

definition example_room :: "string \<Rightarrow> nat option" where
  "example_room path = (if path = ''/mnt/full/out.png'' then Some 100 else None)"

definition empty_world :: world where
  "empty_world =
     \<lparr>files = Map.empty, open_error = example_open_error, room = example_room,
      written = [], logged = [], attempts = 0\<rparr>"

definition picture :: string where
  "picture = replicate 500 (CHR ''x'')"

section \<open>Quoting and unquoting\<close>

lemma of_char_hex_digit:
  "n < 16 \<Longrightarrow> (of_char (hex_digit n) :: nat) = (if n < 10 then 48 + n else 55 + n)"
  by (simp add: hex_digit_def)

lemma hex_value_hex_digit: "n < 16 \<Longrightarrow> hex_value (hex_digit n) = Some n"
  by (simp add: hex_value_def of_char_hex_digit Let_def)

lemma hex_digit_neq:
  assumes "n < 16"
  shows "hex_digit n \<noteq> CHR '' ''" "hex_digit n \<noteq> CHR ''&''" "hex_digit n \<noteq> CHR ''=''"
proof -
  have a: "(of_char (hex_digit n) :: nat) \<ge> 48"
    using assms by (simp add: of_char_hex_digit)
  have b: "(of_char (hex_digit n) :: nat) \<noteq> 61"
    using assms by (simp add: of_char_hex_digit)
  show "hex_digit n \<noteq> CHR '' ''" using a by auto
  show "hex_digit n \<noteq> CHR ''&''" using a by auto
  show "hex_digit n \<noteq> CHR ''=''" using b by auto
qed

lemma of_char_div_16: "(of_char (c::char) :: nat) div 16 < 16"
proof -
  have "(of_char c :: nat) < 16 * 16" by simp
  then show ?thesis by (rule less_mult_imp_div_less)
qed

lemma always_safe_neq:
  assumes "c \<in> set always_safe"
  shows "c \<noteq> CHR '' ''" "c \<noteq> CHR ''&''" "c \<noteq> CHR ''=''" "c \<noteq> CHR ''+''" "c \<noteq> CHR ''%''"
  using assms by (auto simp: always_safe_def)

text \<open>\<^verbatim>\<open>quote_plus\<close> works character by character.\<close>

lemma quote_plus_concat: "quote_plus s = concat (map quote_char s)"
proof (cases "CHR '' '' \<in> set s")
  case True
  have "map (\<lambda>c. if c = CHR '' '' then CHR ''+'' else c) (quoter '' '' c) = quote_char c" for c
    using always_safe_neq(1)[of c] hex_digit_neq(1)[OF of_char_div_16, of c]
      hex_digit_neq(1)[of "of_char c mod 16"]
    by (auto simp: quoter_def quote_char_def percent_encode_def)
  then show ?thesis using True
    by (simp add: quote_plus_def quote_def map_concat comp_def)
next
  case False
  have "quoter '''' c = quote_char c" if "c \<in> set s" for c
    using that False by (auto simp: quoter_def quote_char_def)
  then show ?thesis using False
    by (simp add: quote_plus_def quote_def cong: map_cong)
qed

text \<open>A quoted string has neither \<^verbatim>\<open>&\<close> nor \<^verbatim>\<open>=\<close>.\<close>

lemma quote_plus_chars:
  assumes "c \<in> set (quote_plus s)"
  shows "c \<noteq> CHR ''&''" "c \<noteq> CHR ''=''"
proof -
  from assms obtain x where x: "c \<in> set (quote_char x)"
    by (auto simp: quote_plus_concat)
  have h1: "hex_digit (of_char x div 16) \<noteq> CHR ''&''"
    "hex_digit (of_char x div 16) \<noteq> CHR ''=''"
    using hex_digit_neq[OF of_char_div_16, of x] by auto
  have h2: "hex_digit (of_char x mod 16) \<noteq> CHR ''&''"
    "hex_digit (of_char x mod 16) \<noteq> CHR ''=''"
    using hex_digit_neq[of "of_char x mod 16"] by auto
  show "c \<noteq> CHR ''&''" using x always_safe_neq(2)[of x] h1 h2
    by (auto simp: quote_char_def percent_encode_def split: if_splits)
  show "c \<noteq> CHR ''=''" using x always_safe_neq(3)[of x] h1 h2
    by (auto simp: quote_char_def percent_encode_def split: if_splits)
qed

lemma unquote_plus_plain:
  "c \<noteq> CHR ''+'' \<Longrightarrow> c \<noteq> CHR ''%'' \<Longrightarrow> unquote_plus (c # r) = c # unquote_plus r"
  by (cases "c # r" rule: unquote_plus.cases) auto

lemma unquote_plus_plus: "unquote_plus (CHR ''+'' # r) = CHR '' '' # unquote_plus r"
  by (cases "CHR ''+'' # r" rule: unquote_plus.cases) auto

lemma unquote_plus_percent: "unquote_plus (percent_encode c @ r) = c # unquote_plus r"
proof -
  have "16 * ((of_char c :: nat) div 16) + of_char c mod 16 = of_char c" by simp
  then show ?thesis
    by (simp add: percent_encode_def hex_value_hex_digit of_char_div_16)
qed

lemma unquote_plus_quote_char: "unquote_plus (quote_char c @ r) = c # unquote_plus r"
  using always_safe_neq(4,5)[of c]
  by (auto simp: quote_char_def unquote_plus_plain unquote_plus_plus unquote_plus_percent)

text \<open>Unquoting gives the quoted string back.\<close>

lemma unquote_plus_quote_plus: "unquote_plus (quote_plus s) = s"
proof -
  have "unquote_plus (concat (map quote_char s)) = s"
    by (induction s) (simp_all add: unquote_plus_quote_char)
  then show ?thesis by (simp add: quote_plus_concat)
qed

section \<open>Splitting and parsing a query\<close>

lemma split_on_not_Nil: "split_on d xs \<noteq> []"
  by (induction xs) auto

lemma split_on_append: "split_on d (xs @ d # ys) = split_on d xs @ split_on d ys"
  by (induction xs) (auto simp: split_on_not_Nil)

lemma split_on_absent: "d \<notin> set s \<Longrightarrow> split_on d s = [s]"
  by (induction s) auto

lemma split_on_segments:
  "\<forall>seg\<in>set segs. d \<notin> set seg \<Longrightarrow>
   split_on d (q @ concat (map ((#) d) segs)) = split_on d q @ segs"
proof (induction segs arbitrary: q)
  case Nil
  then show ?case by simp
next
  case (Cons seg segs)
  have "split_on d (q @ d # (seg @ concat (map ((#) d) segs)))
      = split_on d q @ split_on d (seg @ concat (map ((#) d) segs))"
    by (rule split_on_append)
  also have "split_on d (seg @ concat (map ((#) d) segs)) = split_on d seg @ segs"
    using Cons by simp
  also have "split_on d seg = [seg]"
    using Cons.prems by (simp add: split_on_absent)
  finally show ?case by simp
qed

lemma parse_pair_field_text: "parse_pair (field_text f) = f"
proof -
  have "\<forall>c\<in>set (quote_plus (fst f)). c \<noteq> CHR ''=''"
    using quote_plus_chars(2) by blast
  then have "takeWhile (\<lambda>c. c \<noteq> CHR ''='') (field_text f) = quote_plus (fst f)"
    and "dropWhile (\<lambda>c. c \<noteq> CHR ''='') (field_text f) = CHR ''='' # quote_plus (snd f)"
    by (simp_all add: field_text_def takeWhile_append2 dropWhile_append2)
  then show ?thesis
    by (simp add: parse_pair_def unquote_plus_quote_plus)
qed

lemma field_text_no_amp: "CHR ''&'' \<notin> set (field_text f)"
  using quote_plus_chars(1) by (auto simp: field_text_def)

lemma field_text_not_Nil: "field_text f \<noteq> []"
  by (simp add: field_text_def)

lemma parse_qsl_query_text: "parse_qsl (q @ query_text fs) = parse_qsl q @ fs"
proof -
  have "query_text fs = concat (map ((#) CHR ''&'') (map field_text fs))"
    by (simp add: query_text_def comp_def)
  moreover have "\<forall>seg\<in>set (map field_text fs). CHR ''&'' \<notin> set seg"
    using field_text_no_amp by auto
  ultimately have "split_on CHR ''&'' (q @ query_text fs)
      = split_on CHR ''&'' q @ map field_text fs"
    using split_on_segments by metis
  moreover have "filter (\<lambda>p. p \<noteq> []) (map field_text fs) = map field_text fs"
    by (induction fs) (simp_all add: field_text_not_Nil)
  moreover have "map parse_pair (map field_text fs) = fs"
    by (induction fs) (simp_all add: parse_pair_field_text)
  ultimately show ?thesis
    by (simp add: parse_qsl_def)
qed

lemma url_query_append: "CHR ''?'' \<in> set p \<Longrightarrow> url_query (p @ r) = url_query p @ r"
proof -
  assume a: "CHR ''?'' \<in> set p"
  then have "dropWhile (\<lambda>c. c \<noteq> CHR ''?'') (p @ r) = dropWhile (\<lambda>c. c \<noteq> CHR ''?'') p @ r"
    by (simp add: dropWhile_append1)
  moreover obtain x xs where "dropWhile (\<lambda>c. c \<noteq> CHR ''?'') p = x # xs"
    using a by (cases "dropWhile (\<lambda>c. c \<noteq> CHR ''?'') p") (auto simp: dropWhile_eq_Nil_conv)
  ultimately show ?thesis by (simp add: url_query_def)
qed

lemma url_parameters_query_text:
  "CHR ''?'' \<in> set p \<Longrightarrow> url_parameters (p @ query_text fs) = url_parameters p @ fs"
  by (simp add: url_parameters_def url_query_append parse_qsl_query_text)

section \<open>What \<^verbatim>\<open>make_url\<close> builds\<close>

lemma quote_plus_url: "quote_plus ''url'' = ''url''"
  by (simp add: quote_plus_concat quote_char_def always_safe_def)

lemma quote_plus_instance_id: "quote_plus ''instance_id'' = ''instance_id''"
  by (simp add: quote_plus_concat quote_char_def always_safe_def)

lemma quote_plus_key: "quote_plus ''key'' = ''key''"
  by (simp add: quote_plus_concat quote_char_def always_safe_def)

lemma repeat_param_url:
  "repeat_param ''url'' xs = query_text (map (\<lambda>x. (''url'', py_str x)) xs)"
  by (simp add: repeat_param_def query_text_def field_text_def quote_plus_url comp_def)

lemma repeat_param_instance_id:
  "repeat_param ''instance_id'' xs = query_text (map (\<lambda>x. (''instance_id'', py_str x)) xs)"
  by (simp add: repeat_param_def query_text_def field_text_def quote_plus_instance_id comp_def)

lemma query_text_append: "query_text (fs @ gs) = query_text fs @ query_text gs"
  by (simp add: query_text_def)

lemma make_url_loop_Inr:
  "make_url_loop u ps = Inr v \<Longrightarrow> v = u @ query_text (concat (map fields_of ps))"
proof (induction u ps rule: make_url_loop.induct)
  case (1 u)
  then show ?case by (simp add: query_text_def)
next
  case (2 u k v' ps)
  then show ?case
    by (auto simp: fields_of_def elements_def repeat_param_url repeat_param_instance_id
        query_text_append query_text_def[of "[_]"] field_text_def
        split: if_splits sum.splits)
qed

lemma make_url_loop_total:
  "\<forall>p\<in>set ps. fst p = ''urls'' \<or> fst p = ''instances'' \<longrightarrow> py_iter (snd p) \<noteq> Inl TypeError
   \<Longrightarrow> \<exists>v. make_url_loop u ps = Inr v"
proof (induction u ps rule: make_url_loop.induct)
  case (1 u)
  then show ?case by simp
next
  case (2 u k v' ps)
  have it: "\<exists>xs. py_iter v' = Inr xs" if "py_iter v' \<noteq> Inl TypeError"
    using that by (cases v') auto
  show ?case
  proof (cases "k = ''urls''")
    case True
    then obtain xs where xs: "py_iter v' = Inr xs" using it "2.prems" by auto
    then show ?thesis using True "2.IH"(1)[OF True xs] "2.prems" by simp
  next
    case False
    note nurls = this
    show ?thesis
    proof (cases "k = ''instances''")
      case True
      then obtain xs where xs: "py_iter v' = Inr xs" using it "2.prems" by auto
      then show ?thesis using True nurls "2.IH"(2)[OF nurls True xs] "2.prems" by simp
    next
      case False
      then show ?thesis using nurls "2.IH"(3)[OF nurls False] "2.prems" by simp
    qed
  qed
qed

lemma make_url_prefix_query: "CHR ''?'' \<in> set (base c @ action @ ''?key='' @ quote_plus (key c))"
  by simp

lemma make_url_Inr:
  "make_url c action ps = Inr u \<Longrightarrow>
   u = (base c @ action @ ''?key='' @ quote_plus (key c)) @ query_text (concat (map fields_of ps))"
  unfolding make_url_def by (rule make_url_loop_Inr)

lemma make_url_total:
  "\<forall>p\<in>set ps. fst p = ''urls'' \<or> fst p = ''instances'' \<longrightarrow> py_iter (snd p) \<noteq> Inl TypeError
   \<Longrightarrow> \<exists>u. make_url c action ps = Inr u"
  unfolding make_url_def by (rule make_url_loop_total)

lemma make_url_parameters:
  assumes "make_url c action ps = Inr u"
  shows "url_parameters u =
    url_parameters (base c @ action @ ''?key='' @ quote_plus (key c)) @ concat (map fields_of ps)"
proof -
  have "u = (base c @ action @ ''?key='' @ quote_plus (key c)) @ query_text (concat (map fields_of ps))"
    using assms by (rule make_url_Inr)
  then show ?thesis
    using url_parameters_query_text[OF make_url_prefix_query] by simp
qed

lemma url_parameters_prefix:
  assumes "CHR ''?'' \<notin> set (b @ a)"
  shows "url_parameters (b @ a @ ''?key='' @ quote_plus k) = [(''key'', k)]"
proof -
  have "dropWhile (\<lambda>c. c \<noteq> CHR ''?'') ((b @ a) @ CHR ''?'' # ''key='' @ quote_plus k)
      = CHR ''?'' # ''key='' @ quote_plus k"
    using assms by (intro dropWhile_append2[THEN trans]) auto
  then have q: "url_query (b @ a @ ''?key='' @ quote_plus k) = field_text (''key'', k)"
    by (simp add: url_query_def field_text_def quote_plus_key)
  have "split_on CHR ''&'' (field_text (''key'', k)) = [field_text (''key'', k)]"
    using field_text_no_amp by (simp add: split_on_absent)
  then show ?thesis
    unfolding url_parameters_def parse_qsl_def q
    by (simp add: field_text_not_Nil parse_pair_field_text)
qed

section \<open>Dictionaries\<close>

lemma map_of_dict_update: "map_of (dict_update k v ps) = (map_of ps)(k \<mapsto> v)"
  by (induction ps) (auto simp: fun_eq_iff)

lemma dict_update_mem: "(k, v) \<in> set (dict_update k v ps)"
  by (induction ps) auto

section \<open>One attempt, and the loop of \<^verbatim>\<open>run\<close>\<close>

lemma make_url_run:
  "\<exists>uri. make_url c ''simple'' (dict_update ''url'' (PStr u) (run_parameters t)) = Inr uri"
  by (rule make_url_total) (simp add: run_parameters_def)

lemma simple_run:
  "simple c u (run_parameters t) reply =
     (Inr (simple_try reply), dict_update ''url'' (PStr u) (run_parameters t))"
proof -
  obtain uri where "make_url c ''simple'' (dict_update ''url'' (PStr u) (run_parameters t)) = Inr uri"
    using make_url_run by blast
  then show ?thesis by (simp add: simple_def)
qed

lemma simple_try_Reply:
  "simple_try (Reply status body) =
     (if 200 \<le> status \<and> status < 300
      then (if length body < 500 then \<lparr>code = 500, png = ''''\<rparr> else \<lparr>code = 200, png = body\<rparr>)
      else \<lparr>code = status, png = ''''\<rparr>)"
  by (simp add: simple_try_def)

lemma simple_try_Failure: "simple_try (Failure f) = \<lparr>code = 400, png = ''''\<rparr>"
  by (cases f) (simp_all add: simple_try_def)

lemma png_simple_try: "png (simple_try reply) \<noteq> [] \<longleftrightarrow> code (simple_try reply) = 200"
  by (cases reply) (auto simp: simple_try_Reply simple_try_Failure)

lemma length_png_simple_try: "png (simple_try reply) \<noteq> [] \<Longrightarrow> 500 \<le> length (png (simple_try reply))"
  by (cases reply) (auto simp: simple_try_Reply simple_try_Failure split: if_splits)

lemma attempt_outcome_Success:
  "attempt_outcome reply = Success d \<longleftrightarrow> png (simple_try reply) = d \<and> d \<noteq> []"
  using png_simple_try[of reply] by (auto simp: attempt_outcome_def outcome_of_def)

lemma attempt_outcome_transient:
  "is_transient (attempt_outcome reply) \<longleftrightarrow>
     png (simple_try reply) = [] \<and> \<not> (500 > code (simple_try reply) \<and> code (simple_try reply) \<ge> 400)"
  by (auto simp: attempt_outcome_def outcome_of_def)

lemma attempt_outcome_Permanent:
  "attempt_outcome reply = PermanentFailure k \<longleftrightarrow>
     code (simple_try reply) = k \<and> png (simple_try reply) = [] \<and> 400 \<le> k \<and> k < 500"
  using png_simple_try[of reply] by (auto simp: attempt_outcome_def outcome_of_def)

lemma store_update [simp]:
  "open_failure (w\<lparr>attempts := a\<rparr>) p = open_failure w p"
  "open_failure (w\<lparr>logged := l\<rparr>) p = open_failure w p"
  "open_failure (w\<lparr>files := f\<rparr>) p = open_failure w p"
  "open_failure (w\<lparr>written := ws\<rparr>) p = open_failure w p"
  "fits (w\<lparr>attempts := a\<rparr>) p d = fits w p d"
  "fits (w\<lparr>logged := l\<rparr>) p d = fits w p d"
  "fits (w\<lparr>files := f\<rparr>) p d = fits w p d"
  "fits (w\<lparr>written := ws\<rparr>) p d = fits w p d"
  "stored_part (w\<lparr>attempts := a\<rparr>) p d = stored_part w p d"
  "stored_part (w\<lparr>logged := l\<rparr>) p d = stored_part w p d"
  "stored_part (w\<lparr>files := f\<rparr>) p d = stored_part w p d"
  "stored_part (w\<lparr>written := ws\<rparr>) p d = stored_part w p d"
  by (simp_all add: open_failure_def fits_def stored_part_def)

lemma store_failure_update [simp]:
  "store_failure (w\<lparr>attempts := a\<rparr>) p d = store_failure w p d"
  "store_failure (w\<lparr>logged := l\<rparr>) p d = store_failure w p d"
  by (simp_all add: store_failure_def)

lemma can_store_update [simp]:
  "can_store (w\<lparr>attempts := a\<rparr>) p d = can_store w p d"
  "can_store (w\<lparr>logged := l\<rparr>) p d = can_store w p d"
  by (simp_all add: can_store_def)

lemma can_store_iff:
  "can_store w p d \<longleftrightarrow> open_failure w p = None \<and> fits w p d"
  by (simp add: can_store_def store_failure_def split: option.splits)

lemma can_store_not_Nil: "can_store w p d \<Longrightarrow> p \<noteq> []"
  by (auto simp: can_store_iff open_failure_def)

lemma stored_part_fits: "fits w p d \<Longrightarrow> stored_part w p d = d"
  by (simp add: fits_def stored_part_def split: option.splits)

text \<open>What \<^verbatim>\<open>simple_file\<close> does with the parameters of \<^verbatim>\<open>run\<close>.\<close>

lemma simple_file_run:
  "simple_file c u p (run_parameters t) reply w =
     (if png (simple_try reply) \<noteq> [] then
        (case open_failure w p of
           Some e \<Rightarrow> (Inl e, dict_update ''url'' (PStr u) (run_parameters t), w)
         | None \<Rightarrow>
             (if fits w p (png (simple_try reply)) then Inr \<lparr>code = 200, file = p\<rparr>
              else Inl IOError,
              dict_update ''url'' (PStr u) (run_parameters t),
              w\<lparr>files := (files w)(p \<mapsto> stored_part w p (png (simple_try reply))),
                written := written w @ [(p, stored_part w p (png (simple_try reply)))]\<rparr>))
      else (Inr \<lparr>code = code (simple_try reply), file = ''''\<rparr>,
            dict_update ''url'' (PStr u) (run_parameters t), w))"
  using png_simple_try[of reply]
  by (auto simp: simple_file_def simple_run open_wb_def file_write_def split: option.splits)

lemma run_loop_res: "file res = [] \<Longrightarrow> file res' = [] \<Longrightarrow> run_loop t res rs w = run_loop t res' rs w"
  by (cases rs) simp_all

lemma run_loop_left: "file res \<noteq> [] \<Longrightarrow> run_loop t res rs w = Some (Condition_false res, w)"
  by (cases rs) simp_all

lemma run_loop_transient:
  assumes "is_transient (attempt_outcome r)" "file res = []"
  shows "run_loop t res (r # rs) w =
    run_loop t \<lparr>code = 0, file = ''''\<rparr> rs
      (w\<lparr>attempts := attempts w + 1, logged := logged w @ [retry_record t r]\<rparr>)"
proof -
  have "run_loop t res (r # rs) w =
    run_loop t \<lparr>code = code (simple_try r), file = ''''\<rparr> rs
      (w\<lparr>attempts := attempts w + 1, logged := logged w @ [retry_record t r]\<rparr>)"
    using assms by (auto simp: attempt_outcome_transient simple_file_run retry_record_def)
  then show ?thesis
    using run_loop_res[of "\<lparr>code = code (simple_try r), file = ''''\<rparr>" "\<lparr>code = 0, file = ''''\<rparr>"]
    by simp
qed

lemma run_loop_permanent:
  assumes "attempt_outcome r = PermanentFailure k" "file res = []"
  shows "run_loop t res (r # rs) w =
    Some (Returned,
      w\<lparr>attempts := attempts w + 1,
        logged := logged w @ [Fatal_error (url t) (browser t) \<lparr>code = k, file = ''''\<rparr>]\<rparr>)"
  using assms by (auto simp: attempt_outcome_Permanent simple_file_run)

lemma run_loop_success:
  assumes "attempt_outcome r = Success d" "file res = []" "can_store w (shotpath t) d"
  shows "run_loop t res (r # rs) w =
    Some (Condition_false \<lparr>code = 200, file = shotpath t\<rparr>,
          w\<lparr>attempts := attempts w + 1, files := (files w)(shotpath t \<mapsto> d),
            written := written w @ [(shotpath t, d)]\<rparr>)"
  using assms can_store_not_Nil[OF assms(3)]
  by (auto simp: attempt_outcome_Success simple_file_run run_loop_left can_store_iff
      stored_part_fits)

lemma run_loop_success_unopened:
  assumes "attempt_outcome r = Success d" "file res = []" "open_failure w (shotpath t) = Some e"
  shows "run_loop t res (r # rs) w = Some (Raised e, w\<lparr>attempts := attempts w + 1\<rparr>)"
  using assms by (auto simp: attempt_outcome_Success simple_file_run)

lemma run_loop_success_unwritten:
  assumes "attempt_outcome r = Success d" "file res = []"
    "open_failure w (shotpath t) = None" "\<not> fits w (shotpath t) d"
  shows "run_loop t res (r # rs) w =
    Some (Raised IOError,
      w\<lparr>attempts := attempts w + 1,
        files := (files w)(shotpath t \<mapsto> stored_part w (shotpath t) d),
        written := written w @ [(shotpath t, stored_part w (shotpath t) d)]\<rparr>)"
  using assms by (auto simp: attempt_outcome_Success simple_file_run)

lemma run_loop_success_failure:
  assumes "attempt_outcome r = Success d" "file res = []" "store_failure w (shotpath t) d = Some e"
  shows "\<exists>w'. run_loop t res (r # rs) w = Some (Raised e, w')"
proof (cases "open_failure w (shotpath t)")
  case None
  then have "\<not> fits w (shotpath t) d" "e = IOError"
    using assms(3) by (auto simp: store_failure_def split: if_splits)
  then show ?thesis
    using run_loop_success_unwritten[OF assms(1,2) None] by simp
next
  case (Some e')
  then have "e' = e"
    using assms(3) by (simp add: store_failure_def)
  then show ?thesis
    using run_loop_success_unopened[OF assms(1,2), of w t e rs] Some by simp
qed

lemma run_loop_transients:
  assumes "\<forall>r\<in>set fs. is_transient (attempt_outcome r)"
  shows "run_loop t \<lparr>code = 0, file = ''''\<rparr> (fs @ rest) w =
    run_loop t \<lparr>code = 0, file = ''''\<rparr> rest
      (w\<lparr>attempts := attempts w + length fs, logged := logged w @ map (retry_record t) fs\<rparr>)"
  using assms
proof (induction fs arbitrary: w)
  case Nil
  then show ?case by simp
next
  case (Cons r fs)
  then show ?case by (simp add: run_loop_transient del: run_loop.simps)
qed

lemma run_pending:
  assumes "\<forall>r\<in>set fs. is_transient (attempt_outcome r)"
  shows "run t fs w = None"
  using run_loop_transients[OF assms, of t "[]" w] by (simp add: run_def)

lemma run_retries_then_success:
  assumes "can_store w (shotpath t) d" "\<forall>r\<in>set fs. is_transient (attempt_outcome r)"
    "attempt_outcome s = Success d"
  shows "run t (fs @ s # rest) w =
    Some (Normal,
      w\<lparr>attempts := attempts w + length fs + 1,
        files := (files w)(shotpath t \<mapsto> d),
        written := written w @ [(shotpath t, d)],
        logged := logged w @ map (retry_record t) fs
                    @ [Took_screenshot (browser t) \<lparr>code = 200, file = shotpath t\<rparr>]\<rparr>)"
  using assms by (simp add: run_def run_loop_transients run_loop_success del: run_loop.simps)

lemma run_permanent:
  assumes "attempt_outcome r = PermanentFailure k"
  shows "run t (r # rest) w =
    Some (Normal,
      w\<lparr>attempts := attempts w + 1,
        logged := logged w @ [Fatal_error (url t) (browser t) \<lparr>code = k, file = ''''\<rparr>]\<rparr>)"
  using assms by (simp add: run_def run_loop_permanent del: run_loop.simps)

text \<open>The example request is the one that the constructor builds for the browser
  \<^verbatim>\<open>chrome\<close>.\<close>

lemma ScreenshotThread_example:
  "ScreenshotThread ''http://example.com'' ''/tmp/out.png'' ''chrome'' None = Inr example_thread"
  by (simp add: ScreenshotThread_def SHOTS_BROWSERS_def example_thread_def)

lemma ScreenshotThread_unknown: "ScreenshotThread u p ''opera'' ck = Inl KeyError"
  by (simp add: ScreenshotThread_def SHOTS_BROWSERS_def)

lemma attempt_outcome_Reply:
  "attempt_outcome (Reply status body) =
     (if 200 \<le> status \<and> status < 300
      then (if length body < 500 then TransientFailure 500 else Success body)
      else if 400 \<le> status \<and> status < 500 then PermanentFailure status
      else TransientFailure status)"
  by (auto simp: attempt_outcome_def outcome_of_def simple_try_Reply)

lemma attempt_outcome_Failure: "attempt_outcome (Failure f) = PermanentFailure 400"
  by (simp add: attempt_outcome_def outcome_of_def simple_try_Failure)

lemma length_picture: "length picture = 500"
  by (simp add: picture_def)

lemma picture_not_Nil: "picture \<noteq> []"
  by (simp add: picture_def)

lemma attempt_outcome_picture: "attempt_outcome (Reply 200 picture) = Success picture"
  by (simp add: attempt_outcome_Reply length_picture)

text \<open>
  The ways in which the loop is left: the file of a successful attempt has been stored; or
  an attempt had a code in [400,500); or storing the file of a successful attempt raised.
\<close>

lemma run_loop_exit:
  assumes "run_loop t res replies w = Some (x, w')" "file res = []"
  shows "(x = Condition_false \<lparr>code = 200, file = shotpath t\<rparr>)
       \<or> (\<exists>k. 400 \<le> k \<and> k < 500 \<and> x = Returned \<and>
              logged w' = butlast (logged w') @ [Fatal_error (url t) (browser t) \<lparr>code = k, file = ''''\<rparr>])
       \<or> (\<exists>e. x = Raised e \<and>
              (\<exists>r\<in>set replies. \<exists>d. attempt_outcome r = Success d \<and>
                  store_failure w (shotpath t) d = Some e))"
  using assms
proof (induction replies arbitrary: res w)
  case Nil
  then show ?case by simp
next
  case (Cons r rs)
  show ?case
  proof (cases "attempt_outcome r")
    case (Success d)
    show ?thesis
    proof (cases "store_failure w (shotpath t) d")
      case None
      then have "can_store w (shotpath t) d"
        by (simp add: can_store_def)
      then show ?thesis
        using Cons.prems run_loop_success[OF Success, of res w t rs]
        by (auto simp del: run_loop.simps)
    next
      case (Some e)
      then obtain w1 where "run_loop t res (r # rs) w = Some (Raised e, w1)"
        using run_loop_success_failure[OF Success Cons.prems(2) Some] by blast
      then have "x = Raised e"
        using Cons.prems(1) by (simp del: run_loop.simps)
      then show ?thesis
        using Success Some by auto
    qed
  next
    case (TransientFailure k)
    then have "run_loop t res (r # rs) w =
        run_loop t \<lparr>code = 0, file = ''''\<rparr> rs
          (w\<lparr>attempts := attempts w + 1, logged := logged w @ [retry_record t r]\<rparr>)"
      using Cons.prems(2) by (intro run_loop_transient) simp_all
    then have "run_loop t \<lparr>code = 0, file = ''''\<rparr> rs
          (w\<lparr>attempts := attempts w + 1, logged := logged w @ [retry_record t r]\<rparr>)
        = Some (x, w')"
      using Cons.prems(1) by (simp del: run_loop.simps)
    from Cons.IH[OF this] show ?thesis by auto
  next
    case (PermanentFailure k)
    then have "400 \<le> k \<and> k < 500"
      by (simp add: attempt_outcome_Permanent)
    then show ?thesis
      using Cons.prems run_loop_permanent[OF PermanentFailure, of res t rs w]
      by (auto simp del: run_loop.simps)
  qed
qed

lemma run_exit:
  assumes "run t replies w = Some (c, w')"
  shows "(c = Normal \<and>
          last (logged w') = Took_screenshot (browser t) \<lparr>code = 200, file = shotpath t\<rparr>)
       \<or> (\<exists>k. 400 \<le> k \<and> k < 500 \<and> c = Normal \<and>
              last (logged w') = Fatal_error (url t) (browser t) \<lparr>code = k, file = ''''\<rparr>)
       \<or> (\<exists>e. c = Exception e \<and>
              (\<exists>r\<in>set replies. \<exists>d. attempt_outcome r = Success d \<and>
                  store_failure w (shotpath t) d = Some e))"
proof -
  obtain x w1 where x: "run_loop t \<lparr>code = 0, file = ''''\<rparr> replies w = Some (x, w1)"
    using assms by (auto simp: run_def split: option.splits)
  have last_eq: "last l = e" if "l = butlast l @ [e]" for l :: "log_event list" and e
    using that by (metis last_snoc)
  from run_loop_exit[OF x] assms x show ?thesis
    by (auto simp: run_def dest: last_eq)
qed

section \<open>The claims about the attempts\<close>

lemma can_store_example: "can_store empty_world (shotpath example_thread) d"
  by (simp add: can_store_iff open_failure_def fits_def empty_world_def example_thread_def
      example_open_error_def example_room_def)

lemma open_failure_directory: "open_failure empty_world (shotpath directory_thread) = Some IOError"
  by (simp add: open_failure_def empty_world_def directory_thread_def example_open_error_def)

lemma open_failure_full_disk: "open_failure empty_world (shotpath full_disk_thread) = None"
  by (simp add: open_failure_def empty_world_def full_disk_thread_def example_open_error_def)

lemma not_fits_full_disk: "\<not> fits empty_world (shotpath full_disk_thread) picture"
  by (simp add: fits_def empty_world_def full_disk_thread_def example_room_def length_picture)

lemma stored_part_full_disk:
  "stored_part empty_world (shotpath full_disk_thread) picture = take 100 picture"
  by (simp add: stored_part_def empty_world_def full_disk_thread_def example_room_def)

lemma open_failure_empty_path: "open_failure w [] = Some IOError"
  by (simp add: open_failure_def)

text \<open>Transient failures followed by a success whose file cannot be opened, or cannot be
  written in full.\<close>

lemma run_retries_then_unopened:
  assumes "\<forall>r\<in>set fs. is_transient (attempt_outcome r)" "attempt_outcome s = Success d"
    "open_failure w (shotpath t) = Some e"
  shows "run t (fs @ s # rest) w =
    Some (Exception e,
      w\<lparr>attempts := attempts w + length fs + 1,
        logged := logged w @ map (retry_record t) fs\<rparr>)"
proof -
  let ?w1 = "w\<lparr>attempts := attempts w + length fs, logged := logged w @ map (retry_record t) fs\<rparr>"
  have "open_failure ?w1 (shotpath t) = Some e"
    using assms(3) by simp
  from run_loop_success_unopened[OF assms(2) _ this, where res = "\<lparr>code = 0, file = ''''\<rparr>" and rs = rest]
  show ?thesis
    using assms(1) by (simp add: run_def run_loop_transients del: run_loop.simps)
qed

lemma run_retries_then_unwritten:
  assumes "\<forall>r\<in>set fs. is_transient (attempt_outcome r)" "attempt_outcome s = Success d"
    "open_failure w (shotpath t) = None" "\<not> fits w (shotpath t) d"
  shows "run t (fs @ s # rest) w =
    Some (Exception IOError,
      w\<lparr>attempts := attempts w + length fs + 1,
        files := (files w)(shotpath t \<mapsto> stored_part w (shotpath t) d),
        written := written w @ [(shotpath t, stored_part w (shotpath t) d)],
        logged := logged w @ map (retry_record t) fs\<rparr>)"
proof -
  let ?w1 = "w\<lparr>attempts := attempts w + length fs, logged := logged w @ map (retry_record t) fs\<rparr>"
  have "open_failure ?w1 (shotpath t) = None" "\<not> fits ?w1 (shotpath t) d"
    using assms(3,4) by simp_all
  from run_loop_success_unwritten[OF assms(2) _ this, where res = "\<lparr>code = 0, file = ''''\<rparr>" and rs = rest]
  show ?thesis
    using assms(1) by (simp add: run_def run_loop_transients del: run_loop.simps)
qed

text \<open>
  Claim C1 asks that every network-level failure of an attempt (a failed connection, a
  timeout, a malformed transport response) be a transient failure with a status code that
  no HTTP reply has, so that the thread tries again, as the docstring of the thread promises
  for transient errors.  The code does not do this.  For every such failure \<^verbatim>\<open>simple\<close>
  returns the code 400 with an empty payload, which is also its result for a real HTTP reply
  with status 400; the code 400 lies in [400,500), the outcome is a permanent failure, and
  \<^verbatim>\<open>run\<close> ends after that attempt with the fatal-error record, whatever replies would
  follow.
\<close>

theorem network_failure_is_code_400:
  "simple_try (Failure f) = \<lparr>code = 400, png = ''''\<rparr> \<and>
   simple_try (Failure f) = simple_try (Reply 400 body) \<and>
   attempt_outcome (Failure f) = PermanentFailure 400 \<and>
   fst (simple (BrowshotClient API_KEY) (url t) (run_parameters t) (Failure f))
     = Inr \<lparr>code = 400, png = ''''\<rparr> \<and>
   run t (Failure f # rest) w =
     Some (Normal,
       w\<lparr>attempts := attempts w + 1,
         logged := logged w @ [Fatal_error (url t) (browser t) \<lparr>code = 400, file = ''''\<rparr>]\<rparr>)"
  using run_permanent[OF attempt_outcome_Failure, where t = t and rest = rest and w = w and f1 = f]
  by (simp add: simple_try_Failure simple_try_Reply attempt_outcome_Failure simple_run)

theorem network_failure_is_code_400_witness:
  "run example_thread [Failure ConnectionFailed, Reply 200 picture] empty_world =
     Some (Normal,
       empty_world\<lparr>attempts := attempts empty_world + 1,
         logged := logged empty_world @
           [Fatal_error (url example_thread) (browser example_thread)
              \<lparr>code = 400, file = ''''\<rparr>]\<rparr>)"
  using network_failure_is_code_400[where f = ConnectionFailed and t = example_thread
      and rest = "[Reply 200 picture]" and w = empty_world]
  by blast

text \<open>
  The failing input of claim C1: the first request times out and the second would be
  answered with a picture.  The outcome of the first attempt is a permanent failure with the
  code of the real status 400, and the thread gives up after one attempt, with no file.
\<close>

theorem network_failure_not_retried:
  "attempt_outcome (Failure TimedOut) = PermanentFailure 400 \<and>
   simple_try (Failure TimedOut) = simple_try (Reply 400 '''') \<and>
   run example_thread [Failure TimedOut, Reply 200 picture] empty_world =
     Some (Normal,
       empty_world\<lparr>attempts := 1,
         logged := [Fatal_error ''http://example.com'' ''chrome'' \<lparr>code = 400, file = ''''\<rparr>]\<rparr>)"
  using run_permanent[OF attempt_outcome_Failure, where t = example_thread
      and rest = "[Reply 200 picture]" and w = empty_world and f1 = TimedOut]
  by (simp add: attempt_outcome_Failure simple_try_Failure simple_try_Reply
      example_thread_def empty_world_def)




text \<open>
  Claim C3.  When the first reply has a status in [400,500), \<^verbatim>\<open>run\<close> returns after exactly
  one attempt, whatever replies would follow; it has logged the fatal error with that
  status, and the files and the list of writes are unchanged.
\<close>

theorem client_error_abandons:
  assumes "400 \<le> status" and "status < 500"
  shows "\<exists>w'. run t (Reply status body # rest) w = Some (Normal, w') \<and>
      attempts w' = attempts w + 1 \<and>
      files w' = files w \<and> written w' = written w \<and>
      logged w' = logged w @ [Fatal_error (url t) (browser t) \<lparr>code = status, file = ''''\<rparr>]"
proof -
  have "attempt_outcome (Reply status body) = PermanentFailure status"
    using assms by (simp add: attempt_outcome_Reply)
  from run_permanent[OF this, where t = t and rest = rest and w = w] show ?thesis by simp
qed

theorem client_error_abandons_witness:
  "(400::int) \<le> 401 \<and> (401::int) < 500 \<and>
   (\<exists>w'. run example_thread [Reply 401 ''Unauthorized'', Reply 200 picture] empty_world
            = Some (Normal, w') \<and>
      attempts w' = 1 \<and> files w' = Map.empty \<and> written w' = [] \<and>
      logged w' = [Fatal_error ''http://example.com'' ''chrome'' \<lparr>code = 401, file = ''''\<rparr>])"
  using client_error_abandons[where status = 401 and t = example_thread
      and body = "''Unauthorized''" and rest = "[Reply 200 picture]" and w = empty_world]
  by (simp add: example_thread_def empty_world_def)

text \<open>
  Claim C4, for a request whose output file can be stored: the output path can be opened
  for writing and the file can take the payload.  When the replies are \<open>N\<close> transient
  failures followed by a success, \<^verbatim>\<open>run\<close> has not returned after any \<open>n \<le> N\<close> of them, it
  returns with the successful attempt after exactly \<open>N + 1\<close> attempts, and the file then
  holds the payload of that last attempt.
\<close>

theorem retries_until_success:
  assumes "can_store w (shotpath t) payload"
    and "\<forall>r\<in>set failures. is_transient (attempt_outcome r)"
    and "attempt_outcome s = Success payload"
  shows "(\<forall>n\<le>length failures. run t (take n failures) w = None) \<and>
    (\<exists>w'. run t (failures @ s # rest) w = Some (Normal, w') \<and>
       attempts w' = attempts w + length failures + 1 \<and>
       files w' (shotpath t) = Some payload)"
proof -
  have "run t (take n failures) w = None" for n
  proof (rule run_pending)
    show "\<forall>r\<in>set (take n failures). is_transient (attempt_outcome r)"
      using assms(2) by (meson in_set_takeD)
  qed
  then show ?thesis
    using run_retries_then_success[OF assms, where rest = rest] by simp
qed

theorem retries_until_success_witness:
  "can_store empty_world (shotpath example_thread) picture \<and>
   run example_thread [Reply 503 '''', Reply 200 ''short''] empty_world = None \<and>
   (\<exists>w'. run example_thread [Reply 503 '''', Reply 200 ''short'', Reply 200 picture] empty_world
            = Some (Normal, w') \<and>
      attempts w' = 3 \<and> files w' ''/tmp/out.png'' = Some picture)"
proof -
  have b: "\<forall>r\<in>set [Reply 503 '''', Reply 200 ''short'']. is_transient (attempt_outcome r)"
    by (simp add: attempt_outcome_Reply)
  have "\<forall>n\<le>2. run example_thread (take n [Reply 503 '''', Reply 200 ''short'']) empty_world = None"
    using retries_until_success[OF can_store_example b attempt_outcome_picture, where rest = "[]"]
    by simp
  then have "run example_thread (take 2 [Reply 503 '''', Reply 200 ''short'']) empty_world = None"
    by blast
  then show ?thesis
    using can_store_example[of picture]
      retries_until_success[OF can_store_example b attempt_outcome_picture, where rest = "[]"]
    by (auto simp: example_thread_def empty_world_def)
qed

text \<open>
  Claim C4 as the specification states it is false when the output file cannot be stored.
  After one transient failure and a success the thread has made two attempts, and it ends
  with an \<^verbatim>\<open>IOError\<close>: that of \<^verbatim>\<open>open\<close> when the output path is the directory \<^verbatim>\<open>/tmp\<close>, and there is
  no file; that of the write when the file can take 100 bytes, and the file holds the first
  100 bytes of the payload.
\<close>

theorem retries_without_file:
  "is_transient (attempt_outcome (Reply 503 '''')) \<and>
   attempt_outcome (Reply 200 picture) = Success picture \<and>
   run directory_thread [Reply 503 '''', Reply 200 picture] empty_world =
     Some (Exception IOError,
       empty_world\<lparr>attempts := 2,
         logged := [Failed_screenshot ''chrome'' \<lparr>code = 503, file = ''''\<rparr>]\<rparr>) \<and>
   files (empty_world\<lparr>attempts := 2,
         logged := [Failed_screenshot ''chrome'' \<lparr>code = 503, file = ''''\<rparr>]\<rparr>) = Map.empty \<and>
   run full_disk_thread [Reply 503 '''', Reply 200 picture] empty_world =
     Some (Exception IOError,
       empty_world\<lparr>attempts := 2,
         files := [''/mnt/full/out.png'' \<mapsto> take 100 picture],
         written := [(''/mnt/full/out.png'', take 100 picture)],
         logged := [Failed_screenshot ''chrome'' \<lparr>code = 503, file = ''''\<rparr>]\<rparr>)"
proof -
  have t: "is_transient (attempt_outcome (Reply 503 ''''))"
    by (simp add: attempt_outcome_Reply)
  then have ts: "\<forall>r\<in>set [Reply 503 '''']. is_transient (attempt_outcome r)"
    by simp
  show ?thesis
    using t run_retries_then_unopened[OF ts attempt_outcome_picture open_failure_directory,
        where rest = "[]"]
      run_retries_then_unwritten[OF ts attempt_outcome_picture open_failure_full_disk
        not_fits_full_disk, where rest = "[]"]
    by (simp add: attempt_outcome_picture stored_part_full_disk retry_record_def
        simple_try_Reply)
      (simp add: empty_world_def full_disk_thread_def directory_thread_def)
qed

section \<open>The claims about one attempt\<close>

lemma simple_Inr:
  "make_url c ''simple'' (dict_update ''url'' (PStr u) ps) = Inr uri \<Longrightarrow>
   simple c u ps reply = (Inr (simple_try reply), dict_update ''url'' (PStr u) ps)"
  by (simp add: simple_def)

lemma simple_returns:
  "simple c u ps reply = (Inr r, ps') \<Longrightarrow> r = simple_try reply \<and> ps' = dict_update ''url'' (PStr u) ps"
  by (auto simp: simple_def Let_def split: sum.splits)

text \<open>
  Claim C5.  In an attempt whose URL could be built and whose reply has status 200, a body
  of exactly 500 bytes is the result \<^verbatim>\<open>{'code': 200, 'png': body}\<close>, a success with that body;
  a body of 499 bytes is the result \<^verbatim>\<open>{'code': 500, 'png': ''}\<close>, a transient failure with an
  empty payload.
\<close>

theorem size_threshold:
  assumes "make_url c ''simple'' (dict_update ''url'' (PStr u) ps) = Inr uri"
  shows "(length body = 500 \<longrightarrow>
            fst (simple c u ps (Reply 200 body)) = Inr \<lparr>code = 200, png = body\<rparr> \<and>
            attempt_outcome (Reply 200 body) = Success body) \<and>
         (length body = 499 \<longrightarrow>
            fst (simple c u ps (Reply 200 body)) = Inr \<lparr>code = 500, png = ''''\<rparr> \<and>
            attempt_outcome (Reply 200 body) = TransientFailure 500)"
  by (simp add: simple_Inr[OF assms] simple_try_Reply attempt_outcome_Reply)

theorem size_threshold_witness:
  "fst (simple (BrowshotClient API_KEY) ''http://example.com'' (run_parameters example_thread)
          (Reply 200 picture)) = Inr \<lparr>code = 200, png = picture\<rparr> \<and>
   attempt_outcome (Reply 200 picture) = Success picture \<and>
   fst (simple (BrowshotClient API_KEY) ''http://example.com'' (run_parameters example_thread)
          (Reply 200 (replicate 499 (CHR ''x'')))) = Inr \<lparr>code = 500, png = ''''\<rparr> \<and>
   attempt_outcome (Reply 200 (replicate 499 (CHR ''x''))) = TransientFailure 500"
proof -
  obtain uri where u: "make_url (BrowshotClient API_KEY) ''simple''
      (dict_update ''url'' (PStr ''http://example.com'') (run_parameters example_thread)) = Inr uri"
    using make_url_run by blast
  show ?thesis
    using size_threshold[OF u, where body = picture]
      size_threshold[OF u, where body = "replicate 499 (CHR ''x'')"]
    by (simp add: length_picture)
qed

text \<open>
  Claim C10, with the consequence for \<^verbatim>\<open>simple_file\<close> stated for a file that can be stored:
  the file path can be opened for writing and the file can take \<^verbatim>\<open>png\<close>.  For every result
  that \<^verbatim>\<open>simple\<close> returns, \<^verbatim>\<open>png\<close> is non-empty exactly when \<^verbatim>\<open>code\<close> is 200, and a non-empty
  \<^verbatim>\<open>png\<close> has at least 500 bytes.  When the file can be stored, \<^verbatim>\<open>simple_file\<close> writes the file
  exactly when the code is 200: it returns the path in \<^verbatim>\<open>file\<close> and the file holds \<^verbatim>\<open>png\<close>.
  When the code is not 200 it returns the empty string in \<^verbatim>\<open>file\<close> and leaves the world as it
  was, whatever the path.  In both cases \<^verbatim>\<open>code\<close> is that of \<^verbatim>\<open>simple\<close>.
\<close>

theorem png_iff_code_200:
  assumes "simple c u ps reply = (Inr r, ps')"
  shows "(png r \<noteq> [] \<longleftrightarrow> code r = 200) \<and>
         (png r \<noteq> [] \<longrightarrow> 500 \<le> length (png r)) \<and>
         (can_store w file_path (png r) \<longrightarrow>
            simple_file c u file_path ps reply w =
              (if code r = 200
               then (Inr \<lparr>code = code r, file = file_path\<rparr>, ps',
                     w\<lparr>files := (files w)(file_path \<mapsto> png r),
                       written := written w @ [(file_path, png r)]\<rparr>)
               else (Inr \<lparr>code = code r, file = ''''\<rparr>, ps', w))) \<and>
         (code r \<noteq> 200 \<longrightarrow>
            simple_file c u file_path ps reply w = (Inr \<lparr>code = code r, file = ''''\<rparr>, ps', w))"
proof -
  have r: "r = simple_try reply"
    using assms by (simp add: simple_returns)
  show ?thesis
    using png_simple_try[of reply] length_png_simple_try[of reply]
    by (auto simp: r[symmetric] simple_file_def assms open_wb_def file_write_def
        can_store_iff stored_part_fits)
qed

theorem png_iff_code_200_witness:
  "can_store empty_world ''/tmp/out.png'' picture \<and>
   png \<lparr>code = 200, png = picture\<rparr> \<noteq> [] \<and>
   500 \<le> length (png \<lparr>code = 200, png = picture\<rparr>) \<and>
   simple_file (BrowshotClient API_KEY) ''http://example.com'' ''/tmp/out.png''
       (run_parameters example_thread) (Reply 200 picture) empty_world =
     (Inr \<lparr>code = 200, file = ''/tmp/out.png''\<rparr>,
      dict_update ''url'' (PStr ''http://example.com'') (run_parameters example_thread),
      empty_world\<lparr>files := [''/tmp/out.png'' \<mapsto> picture],
        written := [(''/tmp/out.png'', picture)]\<rparr>)"
proof -
  have s: "simple (BrowshotClient API_KEY) ''http://example.com'' (run_parameters example_thread)
      (Reply 200 picture) =
    (Inr \<lparr>code = 200, png = picture\<rparr>,
     dict_update ''url'' (PStr ''http://example.com'') (run_parameters example_thread))"
    by (simp add: simple_run simple_try_Reply length_picture)
  have o: "can_store empty_world ''/tmp/out.png'' picture"
    using can_store_example[of picture] by (simp add: example_thread_def)
  show ?thesis
    using o png_iff_code_200[OF s, where file_path = "''/tmp/out.png''" and w = empty_world]
    by (simp add: empty_world_def)
qed

text \<open>
  Claim C10 as it is stated is false for a file that cannot be stored: the result of
  \<^verbatim>\<open>simple\<close> has the code 200, and \<^verbatim>\<open>simple_file\<close> does not return.  For a path in a directory
  that does not exist it writes nothing and raises the \<^verbatim>\<open>IOError\<close> of \<^verbatim>\<open>open\<close>; for a file that
  can take 100 bytes it raises the \<^verbatim>\<open>IOError\<close> of the write and leaves the first 100 bytes.
\<close>

theorem code_200_without_file:
  "fst (simple (BrowshotClient API_KEY) ''http://example.com'' [] (Reply 200 picture))
     = Inr \<lparr>code = 200, png = picture\<rparr> \<and>
   simple_file (BrowshotClient API_KEY) ''http://example.com'' ''/nonexistent_dir_xyz/out.png''
       [] (Reply 200 picture) empty_world
     = (Inl IOError, [(''url'', PStr ''http://example.com'')], empty_world) \<and>
   simple_file (BrowshotClient API_KEY) ''http://example.com'' ''/mnt/full/out.png''
       [] (Reply 200 picture) empty_world
     = (Inl IOError, [(''url'', PStr ''http://example.com'')],
        empty_world\<lparr>files := [''/mnt/full/out.png'' \<mapsto> take 100 picture],
          written := [(''/mnt/full/out.png'', take 100 picture)]\<rparr>)"
proof -
  obtain uri where "make_url (BrowshotClient API_KEY) ''simple''
      (dict_update ''url'' (PStr ''http://example.com'') []) = Inr uri"
    using make_url_total[of "dict_update ''url'' (PStr ''http://example.com'') []"
        "BrowshotClient API_KEY" "''simple''"] by auto
  then have "simple (BrowshotClient API_KEY) ''http://example.com'' [] (Reply 200 picture)
      = (Inr \<lparr>code = 200, png = picture\<rparr>, [(''url'', PStr ''http://example.com'')])"
    by (simp add: simple_Inr simple_try_Reply length_picture)
  moreover have "open_failure empty_world ''/nonexistent_dir_xyz/out.png'' = Some IOError"
    by (simp add: open_failure_def empty_world_def example_open_error_def)
  moreover have "open_failure empty_world ''/mnt/full/out.png'' = None"
    "\<not> fits empty_world ''/mnt/full/out.png'' picture"
    "stored_part empty_world ''/mnt/full/out.png'' picture = take 100 picture"
    using open_failure_full_disk not_fits_full_disk stored_part_full_disk
    by (simp_all add: full_disk_thread_def)
  ultimately show ?thesis
    by (simp add: simple_file_def open_wb_def file_write_def picture_not_Nil)
      (simp add: empty_world_def)
qed

section \<open>The claims about the thread as a whole\<close>

text \<open>
  Claim C8, with the ways in which the thread ends stated for a request whose output file
  can be stored.  No exception of the network call leaves \<^verbatim>\<open>simple\<close>: whenever \<^verbatim>\<open>simple\<close>
  raises, it is \<^verbatim>\<open>make_url\<close> that raised, before the call, and with the parameters of \<^verbatim>\<open>run\<close>
  it returns a result for every reply.  Every exception that ends \<^verbatim>\<open>run\<close> was raised by
  \<^verbatim>\<open>open\<close>, \<^verbatim>\<open>write\<close> or \<^verbatim>\<open>close\<close> on the output file of a successful attempt, none by the network
  call.  When the output file can be stored for the payload of every successful attempt,
  \<^verbatim>\<open>run\<close>, when it ends, has returned, and its last log record either names the written file
  or is the fatal error with a code in [400,500) and the result of the attempt.
\<close>

theorem no_transport_exception:
  "(\<forall>e. fst (simple c u ps reply) = Inl e \<longrightarrow>
        make_url c ''simple'' (dict_update ''url'' (PStr u) ps) = Inl e) \<and>
   fst (simple (BrowshotClient API_KEY) (url t) (run_parameters t) reply)
     = Inr (simple_try reply) \<and>
   (\<forall>e w'. run t replies w = Some (Exception e, w') \<longrightarrow>
      (\<exists>r\<in>set replies. \<exists>d. attempt_outcome r = Success d \<and>
          store_failure w (shotpath t) d = Some e)) \<and>
   (\<forall>how w'.
      (\<forall>r\<in>set replies. \<forall>d. attempt_outcome r = Success d \<longrightarrow> can_store w (shotpath t) d) \<longrightarrow>
      run t replies w = Some (how, w') \<longrightarrow>
      how = Normal \<and>
      (last (logged w') = Took_screenshot (browser t) \<lparr>code = 200, file = shotpath t\<rparr> \<or>
       (\<exists>k. 400 \<le> k \<and> k < 500 \<and>
          last (logged w') = Fatal_error (url t) (browser t) \<lparr>code = k, file = ''''\<rparr>)))"
proof -
  have "make_url c ''simple'' (dict_update ''url'' (PStr u) ps) = Inl e"
    if "fst (simple c u ps reply) = Inl e" for e
    using that by (auto simp: simple_def Let_def split: sum.splits)
  moreover have "\<exists>r\<in>set replies. \<exists>d. attempt_outcome r = Success d \<and>
      store_failure w (shotpath t) d = Some e"
    if "run t replies w = Some (Exception e, w')" for e w'
    using run_exit[OF that] by auto
  moreover have "how = Normal \<and>
      (last (logged w') = Took_screenshot (browser t) \<lparr>code = 200, file = shotpath t\<rparr> \<or>
       (\<exists>k. 400 \<le> k \<and> k < 500 \<and>
          last (logged w') = Fatal_error (url t) (browser t) \<lparr>code = k, file = ''''\<rparr>))"
    if "\<forall>r\<in>set replies. \<forall>d. attempt_outcome r = Success d \<longrightarrow> can_store w (shotpath t) d"
      "run t replies w = Some (how, w')" for how w'
    using run_exit[OF that(2)] that(1) by (auto simp: can_store_def)
  ultimately show ?thesis
    by (simp add: simple_run)
qed

theorem no_transport_exception_witness:
  "can_store empty_world (shotpath example_thread) picture \<and>
   run example_thread [Failure MalformedResponse, Reply 200 picture] empty_world =
     Some (Normal, empty_world\<lparr>attempts := 1,
       logged := [Fatal_error ''http://example.com'' ''chrome'' \<lparr>code = 400, file = ''''\<rparr>]\<rparr>) \<and>
   fst (simple (BrowshotClient API_KEY) (url example_thread) (run_parameters example_thread)
          (Failure MalformedResponse)) = Inr (simple_try (Failure MalformedResponse)) \<and>
   (last (logged (empty_world\<lparr>attempts := 1,
       logged := [Fatal_error ''http://example.com'' ''chrome'' \<lparr>code = 400, file = ''''\<rparr>]\<rparr>))
      = Took_screenshot (browser example_thread) \<lparr>code = 200, file = shotpath example_thread\<rparr> \<or>
    (\<exists>k. 400 \<le> k \<and> k < 500 \<and>
       last (logged (empty_world\<lparr>attempts := 1,
         logged := [Fatal_error ''http://example.com'' ''chrome'' \<lparr>code = 400, file = ''''\<rparr>]\<rparr>))
        = Fatal_error (url example_thread) (browser example_thread) \<lparr>code = k, file = ''''\<rparr>))"
proof -
  have a: "\<forall>r\<in>set [Failure MalformedResponse, Reply 200 picture]. \<forall>d.
      attempt_outcome r = Success d \<longrightarrow> can_store empty_world (shotpath example_thread) d"
    using can_store_example by blast
  have r: "run example_thread [Failure MalformedResponse, Reply 200 picture] empty_world =
     Some (Normal, empty_world\<lparr>attempts := 1,
       logged := [Fatal_error ''http://example.com'' ''chrome'' \<lparr>code = 400, file = ''''\<rparr>]\<rparr>)"
    using run_permanent[OF attempt_outcome_Failure, where t = example_thread
        and rest = "[Reply 200 picture]" and w = empty_world and f1 = MalformedResponse]
    by (simp add: example_thread_def empty_world_def)
  show ?thesis
    using no_transport_exception[where t = example_thread
        and replies = "[Failure MalformedResponse, Reply 200 picture]" and w = empty_world
        and reply = "Failure MalformedResponse"] a r can_store_example[of picture]
    by blast
qed

text \<open>
  Claim C8 as the specification states it is false when the output file cannot be stored:
  after a redirect status and a picture the thread ends neither with a written file nor
  with an abandonment, but with an \<^verbatim>\<open>IOError\<close>, that of \<^verbatim>\<open>open\<close> when the output path is the
  directory \<^verbatim>\<open>/tmp\<close> and that of the write when the file can take 100 bytes.
\<close>

theorem ends_with_IOError:
  "run directory_thread [Reply 302 '''', Reply 200 picture] empty_world =
     Some (Exception IOError,
       empty_world\<lparr>attempts := 2,
         logged := [Failed_screenshot ''chrome'' \<lparr>code = 302, file = ''''\<rparr>]\<rparr>) \<and>
   run full_disk_thread [Reply 302 '''', Reply 200 picture] empty_world =
     Some (Exception IOError,
       empty_world\<lparr>attempts := 2,
         files := [''/mnt/full/out.png'' \<mapsto> take 100 picture],
         written := [(''/mnt/full/out.png'', take 100 picture)],
         logged := [Failed_screenshot ''chrome'' \<lparr>code = 302, file = ''''\<rparr>]\<rparr>)"
proof -
  have ts: "\<forall>r\<in>set [Reply 302 '''']. is_transient (attempt_outcome r)"
    by (simp add: attempt_outcome_Reply)
  show ?thesis
    using run_retries_then_unopened[OF ts attempt_outcome_picture open_failure_directory,
        where rest = "[]"]
      run_retries_then_unwritten[OF ts attempt_outcome_picture open_failure_full_disk
        not_fits_full_disk, where rest = "[]"]
    by (simp add: stored_part_full_disk retry_record_def simple_try_Reply)
      (simp add: empty_world_def full_disk_thread_def directory_thread_def)
qed

section \<open>The claims about \<^verbatim>\<open>make_url\<close> and the parameters\<close>

lemma str_int_12: "str_int 12 = ''12''"
  by code_simp

lemma str_int_65: "str_int 65 = ''65''"
  by code_simp

text \<open>
  Claim C6.  Two parameter lists with the same entries in different orders, with neither of
  the keys \<^verbatim>\<open>urls\<close> and \<^verbatim>\<open>instances\<close>, give two URLs, for every client and action, and the two
  URLs parse to the same set of fields.
\<close>

theorem make_url_order_insensitive:
  assumes "mset ps1 = mset ps2"
    and "\<forall>p\<in>set ps1. fst p \<noteq> ''urls'' \<and> fst p \<noteq> ''instances''"
  shows "\<exists>u1 u2. make_url c action ps1 = Inr u1 \<and> make_url c action ps2 = Inr u2 \<and>
      set (url_parameters u1) = set (url_parameters u2)"
proof -
  have s: "set ps1 = set ps2"
    using assms(1) by (rule mset_eq_setD)
  obtain u1 where u1: "make_url c action ps1 = Inr u1"
    using make_url_total[of ps1 c action] assms(2) by auto
  obtain u2 where u2: "make_url c action ps2 = Inr u2"
    using make_url_total[of ps2 c action] assms(2) s by auto
  have "set (url_parameters u1) = set (url_parameters u2)"
    using make_url_parameters[OF u1] make_url_parameters[OF u2] s by simp
  then show ?thesis using u1 u2 by blast
qed

theorem make_url_order_insensitive_witness:
  "\<exists>u1 u2.
     make_url (BrowshotClient API_KEY) ''simple''
       [(''cache'', PInt 0), (''size'', PStr ''page''), (''url'', PStr ''http://a.b/?x=1&y=2'')]
       = Inr u1 \<and>
     make_url (BrowshotClient API_KEY) ''simple''
       [(''url'', PStr ''http://a.b/?x=1&y=2''), (''cache'', PInt 0), (''size'', PStr ''page'')]
       = Inr u2 \<and>
     set (url_parameters u1) = set (url_parameters u2)"
  using make_url_order_insensitive[where c = "BrowshotClient API_KEY" and action = "''simple''"
      and ?ps1.0 = "[(''cache'', PInt 0), (''size'', PStr ''page''), (''url'', PStr ''http://a.b/?x=1&y=2'')]"
      and ?ps2.0 = "[(''url'', PStr ''http://a.b/?x=1&y=2''), (''cache'', PInt 0), (''size'', PStr ''page'')]"]
  by simp

text \<open>
  Claim C7.  When every value under the keys \<^verbatim>\<open>urls\<close> and \<^verbatim>\<open>instances\<close> is a collection (it
  can be iterated), \<^verbatim>\<open>make_url\<close> returns a URL, and the URL parses to the fields of its prefix
  followed, entry by entry, by one field \<^verbatim>\<open>url\<close> or \<^verbatim>\<open>instance_id\<close> for every element of such
  a value, holding that element, and by one field with the key and the value of every other
  entry: every key and value is read back as it was, so each was percent-encoded on its
  own.  When neither the base nor the action has a question mark, the prefix is the field
  \<^verbatim>\<open>key\<close>.
\<close>

theorem make_url_repeats_collections:
  assumes "\<forall>p\<in>set ps. fst p = ''urls'' \<or> fst p = ''instances'' \<longrightarrow> py_iter (snd p) \<noteq> Inl TypeError"
  shows "\<exists>u. make_url c action ps = Inr u \<and>
      u = (base c @ action @ ''?key='' @ quote_plus (key c)) @ query_text (concat (map fields_of ps)) \<and>
      url_parameters u =
        url_parameters (base c @ action @ ''?key='' @ quote_plus (key c))
          @ concat (map fields_of ps) \<and>
      (CHR ''?'' \<notin> set (base c @ action) \<longrightarrow>
         url_parameters u = (''key'', key c) # concat (map fields_of ps))"
proof -
  obtain u where u: "make_url c action ps = Inr u"
    using make_url_total[OF assms] by blast
  show ?thesis
    using u make_url_Inr[OF u] make_url_parameters[OF u]
      url_parameters_prefix[of "base c" action "key c"]
    by auto
qed

theorem make_url_repeats_collections_witness:
  "\<exists>u. make_url (BrowshotClient API_KEY) ''screenshot/multiple''
          [(''urls'', PList [PStr ''http://a.b/?x=1&y=2'', PStr ''c d'']),
           (''instances'', PList [PInt 12, PInt 65]),
           (''size'', PStr ''page'')] = Inr u \<and>
        url_parameters u =
          [(''key'', ''API_KEY_HERE''),
           (''url'', ''http://a.b/?x=1&y=2''), (''url'', ''c d''),
           (''instance_id'', ''12''), (''instance_id'', ''65''),
           (''size'', ''page'')]"
  using make_url_repeats_collections[where c = "BrowshotClient API_KEY"
      and action = "''screenshot/multiple''"
      and ps = "[(''urls'', PList [PStr ''http://a.b/?x=1&y=2'', PStr ''c d'']),
           (''instances'', PList [PInt 12, PInt 65]),
           (''size'', PStr ''page'')]"]
  by (auto simp: BrowshotClient_def API_KEY_def fields_of_def elements_def str_int_12 str_int_65)

text \<open>
  Claim C9.  \<^verbatim>\<open>simple\<close> leaves the caller's dictionary updated, whether it returns or raises:
  the dictionary has the key \<^verbatim>\<open>url\<close> with the given URL and every other key as before.  A
  later call that builds a URL from the same dictionary, for any client and action, sends
  that \<^verbatim>\<open>url\<close> as a field.
\<close>

theorem simple_mutates_parameters:
  "snd (simple c u ps reply) = dict_update ''url'' (PStr u) ps \<and>
   dict_get (snd (simple c u ps reply)) = (dict_get ps)(''url'' \<mapsto> PStr u) \<and>
   (\<forall>c' action v. make_url c' action (snd (simple c u ps reply)) = Inr v \<longrightarrow>
      (''url'', u) \<in> set (url_parameters v))"
proof -
  have d: "snd (simple c u ps reply) = dict_update ''url'' (PStr u) ps"
    by (simp add: simple_def Let_def)
  have g: "dict_get (dict_update ''url'' (PStr u) ps) = (dict_get ps)(''url'' \<mapsto> PStr u)"
    using map_of_dict_update[of "''url''" "PStr u" ps] by (auto simp: dict_get_def fun_eq_iff)
  have "(''url'', u) \<in> set (url_parameters v)"
    if v: "make_url c' action (dict_update ''url'' (PStr u) ps) = Inr v" for c' action v
  proof -
    have "(''url'', PStr u) \<in> set (dict_update ''url'' (PStr u) ps)"
      by (rule dict_update_mem)
    moreover have "fields_of (''url'', PStr u) = [(''url'', u)]"
      by (simp add: fields_of_def)
    ultimately have "(''url'', u) \<in> set (concat (map fields_of (dict_update ''url'' (PStr u) ps)))"
      by force
    then show ?thesis
      using make_url_parameters[OF v] by simp
  qed
  then show ?thesis using d g by simp
qed

theorem simple_mutates_parameters_witness:
  "snd (simple (BrowshotClient API_KEY) ''http://example.com'' [(''id'', PInt 7)] (Reply 503 ''''))
     = [(''id'', PInt 7), (''url'', PStr ''http://example.com'')] \<and>
   (\<exists>v. make_url (BrowshotClient API_KEY) ''screenshot/info''
           (snd (simple (BrowshotClient API_KEY) ''http://example.com'' [(''id'', PInt 7)]
                   (Reply 503 ''''))) = Inr v \<and>
        (''url'', ''http://example.com'') \<in> set (url_parameters v))"
proof -
  obtain v where v: "make_url (BrowshotClient API_KEY) ''screenshot/info''
      [(''id'', PInt 7), (''url'', PStr ''http://example.com'')] = Inr v"
    using make_url_total[of "[(''id'', PInt 7), (''url'', PStr ''http://example.com'')]"
        "BrowshotClient API_KEY" "''screenshot/info''"] by auto
  show ?thesis
    using simple_mutates_parameters[where c = "BrowshotClient API_KEY"
        and u = "''http://example.com''" and ps = "[(''id'', PInt 7)]" and reply = "Reply 503 ''''"]
      v
    by auto
qed

end
